theory Spec2Isabelle
  imports Complex_Main "HOL-Library.Sublist"
begin

section \<open>Helmet detector: verdict engine and access state\<close>

text \<open>
  The component \<open>HelmetDetector\<close> samples a video frame, runs an object classifier on
  it, derives a helmet verdict and updates the access state. JavaScript numbers are
  modelled as exact rationals (every finite double is one); \<open>NaN\<close> and the infinities
  are outside the model.
\<close>

type_synonym uuid = string

text \<open>An instant is represented by its ISO 8601 text, the form in which it crosses the wire.\<close>

type_synonym time = string

text \<open>One object as the classifier returns it: \<open>{label, score, box: {xmin, ymin, xmax, ymax}}\<close>.\<close>

record RawBox =
  xmin :: rat
  ymin :: rat
  xmax :: rat
  ymax :: rat

record RawObject =
  obj_label :: string
  obj_score :: rat
  obj_box :: RawBox

text \<open>\<open>interface BoundingBox { x, y, width, height, confidence, label }\<close>\<close>

record BoundingBox =
  box_x :: rat
  box_y :: rat
  box_width :: rat
  box_height :: rat
  box_confidence :: rat
  box_label :: string

text \<open>\<open>interface DetectionResult { hasHelmet, confidence, timestamp, boundingBoxes? }\<close>\<close>

record DetectionResult =
  hasHelmet :: bool
  confidence :: rat
  timestamp :: time
  boundingBoxes :: "BoundingBox list"

text \<open>
  \<open>String.prototype.includes\<close>: does the pattern occur in the string as a contiguous
  run of characters, at some position.
\<close>

fun str_includes :: "string \<Rightarrow> string \<Rightarrow> bool" where
  "str_includes [] p = (p = [])"
| "str_includes (c # cs) p = (prefix p (c # cs) \<or> str_includes cs p)"

text \<open>\<open>results.map(obj => ({x: obj.box.xmin, ..., confidence: obj.score, label: obj.label}))\<close>\<close>

definition toBoundingBox :: "RawObject \<Rightarrow> BoundingBox" where
  "toBoundingBox ob =
     \<lparr> box_x = xmin (obj_box ob),
       box_y = ymin (obj_box ob),
       box_width = xmax (obj_box ob) - xmin (obj_box ob),
       box_height = ymax (obj_box ob) - ymin (obj_box ob),
       box_confidence = obj_score ob,
       box_label = obj_label ob \<rparr>"

definition isPerson :: "BoundingBox \<Rightarrow> bool" where
  "isPerson ob = (box_label ob = ''person'')"

definition isHelmet :: "BoundingBox \<Rightarrow> bool" where
  "isHelmet ob =
     (str_includes (box_label ob) ''hat'' \<or>
      str_includes (box_label ob) ''helmet'' \<or>
      str_includes (box_label ob) ''hardhat'')"

text \<open>
  \<open>Math.max(c, ...cs)\<close> on at least one argument. (On no argument JavaScript gives
  \<open>-Infinity\<close>; the caller below reaches \<open>Math.max\<close> only with a non-empty list.)
\<close>

definition Math_max :: "rat \<Rightarrow> rat list \<Rightarrow> rat" where
  "Math_max c cs = fold max cs c"

text \<open>Lines 162 to 189 of \<open>analyzeFrame\<close>: from the classifier's objects to the verdict.\<close>

definition computeResult :: "time \<Rightarrow> RawObject list \<Rightarrow> DetectionResult" where
  "computeResult now results =
     (let detectedObjects = map toBoundingBox results;
          persons = filter isPerson detectedObjects;
          helmets = filter isHelmet detectedObjects;
          hasHelmet' = (length persons > 0 \<and> length helmets > 0);
          confidence' =
            (case map box_confidence helmets of
               c # cs \<Rightarrow> Math_max c cs
             | [] \<Rightarrow> (if length persons > 0 then 0.3 else 0.1))
      in \<lparr> hasHelmet = hasHelmet',
           confidence = confidence',
           timestamp = now,
           boundingBoxes = persons @ helmets \<rparr>)"

text \<open>The toasts the two components show; the constructor names the toast's title.\<close>

datatype toast =
    AccessGranted_toast
  | AccessDenied_toast
  | NewSafetyAlert_toast string
  | EmailAlertFailed_toast
  | AlertAcknowledged_toast

text \<open>
  Lines 196 to 214 of \<open>analyzeFrame\<close>: the access state after a verdict and the toasts
  shown. \<open>setAccessGranted\<close> is the only writer of the state.
\<close>

definition accessUpdate :: "bool \<Rightarrow> bool \<Rightarrow> rat \<Rightarrow> bool \<times> toast list" where
  "accessUpdate granted hasHelmet' confidence' =
     (if hasHelmet' \<and> confidence' > 0.6 then
        (if \<not> granted then (True, [AccessGranted_toast])
         else (granted, []))
      else
        (if granted \<or> (\<not> granted \<and> confidence' > 0.6)
         then (False, [AccessDenied_toast])
         else (granted, [])))"

text \<open>
  The sampling loop calls \<open>analyzeFrame\<close> once per tick, each call seeing the state the
  previous one left. \<open>accessTrace\<close> feeds a sequence of verdicts \<open>(hasHelmet, confidence)\<close>
  through \<open>accessUpdate\<close> and records, per verdict, the state before, the verdict, the
  state after and the toasts.
\<close>

fun accessTrace ::
    "bool \<Rightarrow> (bool \<times> rat) list
       \<Rightarrow> (bool \<times> (bool \<times> rat) \<times> bool \<times> toast list) list" where
  "accessTrace g [] = []"
| "accessTrace g ((h, c) # vs) =
     (let (g', ts) = accessUpdate g h c in (g, (h, c), g', ts) # accessTrace g' vs)"

text \<open>\<open>useState(false)\<close>: the access state when the component mounts.\<close>

definition initialAccessGranted :: bool where
  "initialAccessGranted = False"

section \<open>The record store: tables and triggers\<close>

text \<open>
  The two tables of the migration. A row of \<open>helmet_detections\<close>; \<open>confidence\<close> is
  \<open>DECIMAL(3,2)\<close>, the nullable columns are options.
\<close>

record helmet_detection_row =
  det_id :: uuid
  worker_id :: "string option"
  has_helmet :: bool
  det_confidence :: rat
  detection_timestamp :: time
  location :: "string option"
  image_data :: "string option"
  bounding_box :: "BoundingBox list"
  alert_sent :: bool
  det_created_at :: time

text \<open>
  A row of \<open>safety_alerts\<close>. \<open>email_sent\<close> and \<open>acknowledged\<close> are
  \<open>BOOLEAN DEFAULT false\<close>; no statement of the repository writes \<open>NULL\<close> to them.
\<close>

record safety_alert_row =
  alert_id :: uuid
  detection_id :: "uuid option"
  alert_type :: string
  message :: string
  severity :: string
  email_sent :: bool
  acknowledged :: bool
  created_at :: time
  updated_at :: time

record store =
  helmet_detections :: "helmet_detection_row list"
  safety_alerts :: "safety_alert_row list"

definition empty_store :: store where
  "empty_store = \<lparr> helmet_detections = [], safety_alerts = [] \<rparr>"

datatype db_error =
    unique_violation
  | not_null_violation
  | numeric_value_out_of_range

text \<open>Rounding of \<open>numeric\<close> values: to the nearest integer, ties away from zero.\<close>

definition round_half_away :: "rat \<Rightarrow> int" where
  "round_half_away q = (if q \<ge> 0 then \<lfloor>q + 1/2\<rfloor> else - \<lfloor>- q + 1/2\<rfloor>)"

text \<open>
  Storing a number in a \<open>DECIMAL(3,2)\<close> column: two digits after the point, and an
  error when the rounded value needs more than one digit before it.
\<close>

definition to_decimal_3_2 :: "rat \<Rightarrow> db_error + rat" where
  "to_decimal_3_2 q =
     (let r = of_int (round_half_away (q * 100)) / 100
      in if \<bar>r\<bar> \<ge> 10 then Inl numeric_value_out_of_range else Inr r)"

text \<open>The decimal text of an integer, as \<open>||\<close> renders a \<open>numeric\<close> of scale 0.\<close>

definition digit_char :: "nat \<Rightarrow> char" where
  "digit_char d = char_of (48 + d)"

function show_nat :: "nat \<Rightarrow> string" where
  "show_nat n = (if n < 10 then [digit_char n] else show_nat (n div 10) @ [digit_char (n mod 10)])"
  by pat_completeness auto
termination
  by (relation "measure id") auto

declare show_nat.simps [simp del]

definition show_int :: "int \<Rightarrow> string" where
  "show_int i = (if i < 0 then CHR ''-'' # show_nat (nat (- i)) else show_nat (nat i))"

text \<open>
  The trigger function \<open>create_helmet_violation_alert\<close>, run after each insert into
  \<open>helmet_detections\<close> with the new row as \<open>NEW\<close>. The id and the two timestamps of the
  alert are column defaults (\<open>gen_random_uuid()\<close>, \<open>now()\<close>), passed in here. A \<open>NULL\<close>
  location makes the concatenated message \<open>NULL\<close>, which the \<open>NOT NULL\<close> column refuses;
  the primary key refuses an id already there.
\<close>

definition create_helmet_violation_alert ::
    "uuid \<Rightarrow> time \<Rightarrow> helmet_detection_row \<Rightarrow> store \<Rightarrow> db_error + store" where
  "create_helmet_violation_alert new_id now NEW db =
     (if \<not> has_helmet NEW \<and> det_confidence NEW > 0.6 then
        (case location NEW of
           None \<Rightarrow> Inl not_null_violation
         | Some loc \<Rightarrow>
             if new_id \<in> set (map alert_id (safety_alerts db)) then Inl unique_violation
             else Inr (db\<lparr> safety_alerts := safety_alerts db @
               [\<lparr> alert_id = new_id,
                  detection_id = Some (det_id NEW),
                  alert_type = ''helmet_violation'',
                  message = ''SAFETY ALERT: Worker detected without helmet at '' @ loc @
                    '' with '' @ show_int (round_half_away (det_confidence NEW * 100)) @
                    ''% confidence'',
                  severity = ''critical'',
                  email_sent = False,
                  acknowledged = False,
                  created_at = now,
                  updated_at = now \<rparr>] \<rparr>))
      else Inr db)"

text \<open>The values an \<open>INSERT INTO helmet_detections\<close> of the client supplies.\<close>

record detection_insert =
  ins_has_helmet :: bool
  ins_confidence :: rat
  ins_detection_timestamp :: time
  ins_location :: string
  ins_image_data :: "string option"
  ins_bounding_box :: "BoundingBox list"
  ins_alert_sent :: bool

text \<open>
  One insert into \<open>helmet_detections\<close> with its \<open>AFTER INSERT\<close> trigger. The statement is
  atomic: an error of the trigger undoes the insert.
\<close>

definition insert_helmet_detection ::
    "uuid \<Rightarrow> uuid \<Rightarrow> time \<Rightarrow> detection_insert \<Rightarrow> store \<Rightarrow> db_error + store" where
  "insert_helmet_detection new_id new_alert_id now v db =
     (case to_decimal_3_2 (ins_confidence v) of
        Inl e \<Rightarrow> Inl e
      | Inr c \<Rightarrow>
          if new_id \<in> set (map det_id (helmet_detections db)) then Inl unique_violation
          else
            (let NEW = \<lparr> det_id = new_id,
                         worker_id = None,
                         has_helmet = ins_has_helmet v,
                         det_confidence = c,
                         detection_timestamp = ins_detection_timestamp v,
                         location = Some (ins_location v),
                         image_data = ins_image_data v,
                         bounding_box = ins_bounding_box v,
                         alert_sent = ins_alert_sent v,
                         det_created_at = now \<rparr>
             in create_helmet_violation_alert new_alert_id now NEW
                  (db\<lparr> helmet_detections := helmet_detections db @ [NEW] \<rparr>)))"

text \<open>The trigger function \<open>update_updated_at_column\<close>, run before each update of an alert row.\<close>

definition update_updated_at_column :: "time \<Rightarrow> safety_alert_row \<Rightarrow> safety_alert_row" where
  "update_updated_at_column now NEW = NEW\<lparr> updated_at := now \<rparr>"

text \<open>\<open>UPDATE safety_alerts SET ... WHERE id = key\<close> with its \<open>BEFORE UPDATE\<close> trigger.\<close>

definition update_safety_alerts ::
    "time \<Rightarrow> (safety_alert_row \<Rightarrow> safety_alert_row) \<Rightarrow> uuid \<Rightarrow> store \<Rightarrow> store" where
  "update_safety_alerts now set_clause key db =
     db\<lparr> safety_alerts :=
       map (\<lambda>row. if alert_id row = key
                  then update_updated_at_column now (set_clause row) else row)
           (safety_alerts db) \<rparr>"

text \<open>The violation predicate of the trigger, on a stored detection.\<close>

definition violation :: "helmet_detection_row \<Rightarrow> bool" where
  "violation d = (\<not> has_helmet d \<and> det_confidence d > 0.6)"

section \<open>Effects\<close>

text \<open>
  What an operation does besides changing state, in the order it does it: toasts, console
  output, the invocation of the edge function with its body, and the edge function's
  request to the e-mail service with the recipients it names. A JSON object whose
  fields are strings is a map from field names to strings; an absent field reads as
  \<open>undefined\<close>, here \<open>None\<close>.
\<close>

type_synonym json_object = "string \<rightharpoonup> string"

datatype effect =
    Toast toast
  | Console_log string
  | Console_error string
  | Functions_invoke string json_object
  | Resend_post "string option list"

section \<open>Helmet detector: persisting and analysing a frame\<close>

text \<open>
  What one call of the database decides from outside the program: whether the request
  gets through at all, the ids the column defaults generate and the database's clock.
\<close>

record db_call =
  db_reachable :: bool
  new_detection_id :: uuid
  new_alert_id :: uuid
  db_now :: time

text \<open>
  \<open>saveDetection\<close>: insert the result; an error of the insert, returned or thrown, is
  logged and goes no further.
\<close>

definition saveDetection ::
    "db_call \<Rightarrow> DetectionResult \<Rightarrow> string option \<Rightarrow> store \<Rightarrow> store \<times> effect list" where
  "saveDetection call result imageData db =
     (if \<not> db_reachable call then (db, [Console_error ''Error saving detection:''])
      else
        (case insert_helmet_detection (new_detection_id call) (new_alert_id call) (db_now call)
                \<lparr> ins_has_helmet = hasHelmet result,
                  ins_confidence = confidence result,
                  ins_detection_timestamp = timestamp result,
                  ins_location = ''Mine Site - Camera 1'',
                  ins_image_data = imageData,
                  ins_bounding_box = boundingBoxes result,
                  ins_alert_sent = False \<rparr> db of
           Inl e \<Rightarrow> (db, [Console_error ''Error saving detection:''])
         | Inr db' \<Rightarrow> (db', [Console_log ''Detection saved to database''])))"

text \<open>The two pieces of component state \<open>analyzeFrame\<close> writes.\<close>

record HelmetDetector_state =
  detectionResult :: "DetectionResult option"
  accessGranted :: bool

definition initial_HelmetDetector_state :: HelmetDetector_state where
  "initial_HelmetDetector_state = \<lparr> detectionResult = None, accessGranted = initialAccessGranted \<rparr>"

text \<open>
  What one call of \<open>analyzeFrame\<close> meets: whether the video, the canvas, its 2d context
  and the detector are there; the outcome of encoding the frame and calling the detector
  (\<open>Inl\<close>: one of them threw or rejected, \<open>Inr\<close>: the objects found); the encoded frame;
  the values of the two \<open>Math.random()\<close> calls of the fallback, each in \<open>[0, 1)\<close>; the
  clock; and the database call.
\<close>

record frame_env =
  refs_ready :: bool
  detector_outcome :: "string + RawObject list"
  frame_image :: string
  random_motion :: rat
  random_confidence :: rat
  clock :: time
  frame_db_call :: db_call

definition analyzeFrame ::
    "frame_env \<Rightarrow> HelmetDetector_state \<Rightarrow> store \<Rightarrow> HelmetDetector_state \<times> store \<times> effect list" where
  "analyzeFrame env st db =
     (if \<not> refs_ready env then (st, db, [])
      else
        (case detector_outcome env of
           Inr results \<Rightarrow>
             (let result = computeResult (clock env) results;
                  (db', logged) = saveDetection (frame_db_call env) result (Some (frame_image env)) db;
                  (granted', toasts) =
                     accessUpdate (accessGranted st) (hasHelmet result) (confidence result)
              in (st\<lparr> detectionResult := Some result, accessGranted := granted' \<rparr>,
                  db', logged @ map Toast toasts))
         | Inl err \<Rightarrow>
             (let hasMotion = (random_motion env > 0.4);
                  mockConfidence =
                    (if hasMotion then 0.7 + random_confidence env * 0.2
                     else 0.2 + random_confidence env * 0.3);
                  mockResult =
                    \<lparr> hasHelmet = hasMotion,
                      confidence = mockConfidence,
                      timestamp = clock env,
                      boundingBoxes =
                        (if hasMotion then
                           [\<lparr> box_x = 100, box_y = 50, box_width = 200, box_height = 250,
                              box_confidence = mockConfidence,
                              box_label = (if hasMotion then ''helmet'' else ''person'') \<rparr>]
                         else []) \<rparr>;
                  (db', logged) = saveDetection (frame_db_call env) mockResult None db
              in (st\<lparr> detectionResult := Some mockResult \<rparr>,
                  db', Console_error ''Detection error:'' # logged))))"

section \<open>The edge function \<open>send-safety-alert\<close>\<close>

text \<open>\<open>interface SafetyAlertRequest\<close>: the fields the handler reads from the request body.\<close>

definition SafetyAlertRequest_fields :: "string set" where
  "SafetyAlertRequest_fields =
     {''alertId'', ''workerEmail'', ''alertMessage'', ''severity'', ''location'', ''timestamp''}"

record SafetyAlertRequest =
  req_alertId :: "string option"
  req_workerEmail :: "string option"
  req_alertMessage :: "string option"
  req_severity :: "string option"
  req_location :: "string option"
  req_timestamp :: "string option"

text \<open>The destructuring of the parsed body: each field by its name.\<close>

definition parseRequest :: "json_object \<Rightarrow> SafetyAlertRequest" where
  "parseRequest body =
     \<lparr> req_alertId = body ''alertId'',
       req_workerEmail = body ''workerEmail'',
       req_alertMessage = body ''alertMessage'',
       req_severity = body ''severity'',
       req_location = body ''location'',
       req_timestamp = body ''timestamp'' \<rparr>"

text \<open>
  The answer of the e-mail service to the handler's \<open>fetch\<close>: the call rejects, or a
  response arrives with its \<open>ok\<close> flag, its text and what \<open>json()\<close> makes of the text:
  a rejection, or an object with its \<open>id\<close> field, if it has one.
\<close>

datatype response_json =
    Json_invalid
  | Json_object "string option"

datatype fetch_outcome =
    Fetch_rejects
  | Fetch_response bool string response_json

record handler_env =
  SUPABASE_SERVICE_ROLE_KEY :: "string option"
  RESEND_API_KEY :: "string option"
  resend_fetch :: fetch_outcome
  update_error :: "string option"
  handler_now :: time

record http_request =
  req_method :: string
  req_body :: "json_object option"

text \<open>The response: its status and, when there is a body, the body's fields.\<close>

record response_body =
  success :: bool
  emailId :: "string option"
  error_message :: "string option"

record http_response =
  status :: nat
  body :: "response_body option"

text \<open>
  The \<open>try\<close> block of \<open>handler\<close>. \<open>Inl\<close> is the message of the error thrown, \<open>Inr\<close> the
  \<open>id\<close> of the e-mail service's answer; the store and the effects are those reached at
  that point. The mail's text upper-cases \<open>severity\<close> while the request to the e-mail
  service is being built, which throws when the field is absent. An update whose
  \<open>alertId\<close> is absent matches no row.
\<close>

definition handler_try ::
    "handler_env \<Rightarrow> http_request \<Rightarrow> store
       \<Rightarrow> (string + string option) \<times> store \<times> effect list" where
  "handler_try env req db =
     (case req_body req of
        None \<Rightarrow> (Inl ''Unexpected end of JSON input'', db, [])
      | Some parsed \<Rightarrow>
          (let r = parseRequest parsed in
           case SUPABASE_SERVICE_ROLE_KEY env of
             None \<Rightarrow> (Inl ''supabaseKey is required.'', db, [])
           | Some service_key \<Rightarrow>
               (case RESEND_API_KEY env of
                  None \<Rightarrow> (Inl ''RESEND_API_KEY is not configured'', db, [])
                | Some resendApiKey \<Rightarrow>
                    (case req_severity r of
                       None \<Rightarrow> (Inl ''Cannot read properties of undefined'', db, [])
                     | Some sev \<Rightarrow>
                         (let posted = [Resend_post [req_workerEmail r, Some ''secejenish23@gmail.com'']] in
                          case resend_fetch env of
                            Fetch_rejects \<Rightarrow> (Inl ''fetch failed'', db, posted)
                          | Fetch_response ok errorText emailResult \<Rightarrow>
                              if \<not> ok then (Inl (''Failed to send email: '' @ errorText), db, posted)
                              else
                                (case emailResult of
                                   Json_invalid \<Rightarrow> (Inl ''Unexpected token'', db, posted)
                                 | Json_object email_id \<Rightarrow>
                                     (case update_error env of
                                        Some updateError \<Rightarrow>
                                          (Inr email_id, db,
                                           posted @ [Console_log ''Email sent successfully:'',
                                                     Console_error ''Error updating alert status:''])
                                      | None \<Rightarrow>
                                          (Inr email_id,
                                           (case req_alertId r of
                                              None \<Rightarrow> db
                                            | Some alertId \<Rightarrow>
                                                update_safety_alerts (handler_now env)
                                                  (\<lambda>row. row\<lparr> email_sent := True \<rparr>) alertId db),
                                           posted @ [Console_log ''Email sent successfully:'']))))))))"

definition handler ::
    "handler_env \<Rightarrow> http_request \<Rightarrow> store \<Rightarrow> http_response \<times> store \<times> effect list" where
  "handler env req db =
     (if req_method req = ''OPTIONS'' then (\<lparr> status = 200, body = None \<rparr>, db, [])
      else
        (case handler_try env req db of
           (Inr email_id, db', effects) \<Rightarrow>
             (\<lparr> status = 200,
                body = Some \<lparr> success = True, emailId = email_id,
                              error_message = None \<rparr> \<rparr>,
              db', effects)
         | (Inl err, db', effects) \<Rightarrow>
             (\<lparr> status = 500,
                body = Some \<lparr> success = False, emailId = None,
                              error_message = Some err \<rparr> \<rparr>,
              db', effects @ [Console_error ''Error in send-safety-alert function:''])))"

section \<open>The alert panel \<open>RealtimeAlerts\<close>\<close>

record RealtimeAlerts_state =
  alerts :: "safety_alert_row list"
  unreadCount :: int

text \<open>The body \<open>sendEmailAlert\<close> passes to \<open>supabase.functions.invoke\<close>.\<close>

definition sendEmailAlert_body :: "safety_alert_row \<Rightarrow> json_object" where
  "sendEmailAlert_body alert =
     [''alertId'' \<mapsto> alert_id alert,
      ''workerEmail'' \<mapsto> ''secejenish23@gmail.com'',
      ''alertMessage'' \<mapsto> message alert,
      ''severity'' \<mapsto> severity alert,
      ''location'' \<mapsto> ''Mine Site'',
      ''timestamp'' \<mapsto> created_at alert]"

text \<open>
  What one invocation meets: whether the request reaches the edge function, and what
  the function meets in turn.
\<close>

record invoke_env =
  function_reachable :: bool
  function_env :: handler_env

text \<open>
  \<open>sendEmailAlert\<close>: one invocation of the edge function; \<open>invoke\<close> reports an error
  when the function is not reached or answers with a status outside 200 to 299, and
  the error is shown as a toast.
\<close>

definition sendEmailAlert :: "invoke_env \<Rightarrow> safety_alert_row \<Rightarrow> store \<Rightarrow> store \<times> effect list" where
  "sendEmailAlert env alert db =
     (let invoked = Functions_invoke ''send-safety-alert'' (sendEmailAlert_body alert);
          failed = [Console_error ''Error sending email alert:'', Toast EmailAlertFailed_toast]
      in if \<not> function_reachable env then (db, invoked # failed)
         else
           (case handler (function_env env)
                   \<lparr> req_method = ''POST'', req_body = Some (sendEmailAlert_body alert) \<rparr> db of
              (response, db', effects) \<Rightarrow>
                if 200 \<le> status response \<and> status response \<le> 299
                then (db', invoked # effects @ [Console_log ''Email alert sent successfully''])
                else (db', invoked # effects @ failed)))"

text \<open>The callback of the subscription to inserts into \<open>safety_alerts\<close>, lines 57 to 75.\<close>

definition onAlertInserted ::
    "invoke_env \<Rightarrow> safety_alert_row \<Rightarrow> RealtimeAlerts_state \<Rightarrow> store
       \<Rightarrow> RealtimeAlerts_state \<times> store \<times> effect list" where
  "onAlertInserted env newAlert st db =
     (let st' = st\<lparr> alerts := newAlert # take 9 (alerts st), unreadCount := unreadCount st + 1 \<rparr>;
          shown = [Console_log ''New safety alert:'', Toast (NewSafetyAlert_toast (message newAlert))]
      in if severity newAlert = ''critical'' \<and> \<not> email_sent newAlert
         then (case sendEmailAlert env newAlert db of (db', effects) \<Rightarrow> (st', db', shown @ effects))
         else (st', db, shown))"

text \<open>
  \<open>acknowledgeAlert\<close>: the update of the row, then the local copy, the counter and the
  toast. \<open>ack_error\<close> is the error the update reports, if any; then nothing was written.
\<close>

record ack_env =
  ack_error :: "string option"
  ack_now :: time

definition acknowledgeAlert ::
    "ack_env \<Rightarrow> uuid \<Rightarrow> RealtimeAlerts_state \<Rightarrow> store
       \<Rightarrow> RealtimeAlerts_state \<times> store \<times> effect list" where
  "acknowledgeAlert env alertId st db =
     (case ack_error env of
        Some err \<Rightarrow> (st, db, [Console_error ''Error acknowledging alert:''])
      | None \<Rightarrow>
          (st\<lparr> alerts := map (\<lambda>alert. if alert_id alert = alertId
                                       then alert\<lparr> acknowledged := True \<rparr> else alert) (alerts st),
               unreadCount := max 0 (unreadCount st - 1) \<rparr>,
           update_safety_alerts (ack_now env) (\<lambda>row. row\<lparr> acknowledged := True \<rparr>) alertId db,
           [Toast AlertAcknowledged_toast]))"

section \<open>Histories of the store\<close>

text \<open>
  The statements the repository issues against the store: the insert of a detection
  (\<open>saveDetection\<close>) and the two updates of an alert (\<open>acknowledgeAlert\<close> and the edge
  function). A statement that fails leaves the store as it was.
\<close>

datatype alert_update = Set_email_sent | Set_acknowledged

datatype store_op =
    Insert_detection uuid uuid time detection_insert
  | Update_alert time alert_update uuid

fun set_clause_of :: "alert_update \<Rightarrow> safety_alert_row \<Rightarrow> safety_alert_row" where
  "set_clause_of Set_email_sent row = row\<lparr> email_sent := True \<rparr>"
| "set_clause_of Set_acknowledged row = row\<lparr> acknowledged := True \<rparr>"

fun apply_op :: "store_op \<Rightarrow> store \<Rightarrow> store" where
  "apply_op (Insert_detection new_id alert_new_id now v) db =
     (case insert_helmet_detection new_id alert_new_id now v db of
        Inl e \<Rightarrow> db
      | Inr db' \<Rightarrow> db')"
| "apply_op (Update_alert now u key) db = update_safety_alerts now (set_clause_of u) key db"

definition run_ops :: "store_op list \<Rightarrow> store \<Rightarrow> store" where
  "run_ops ops db = fold apply_op ops db"

text \<open>The alerts of a store that refer to a given detection.\<close>

definition alerts_of :: "store \<Rightarrow> uuid \<Rightarrow> safety_alert_row list" where
  "alerts_of db d = filter (\<lambda>a. detection_id a = Some d) (safety_alerts db)"

section \<open>Reference notions and sample inputs\<close>

text \<open>
  A label names a helmet when it contains \<open>hat\<close>, \<open>helmet\<close> or \<open>hardhat\<close> as a
  substring; \<open>sublist p l\<close> is the library's "\<open>p\<close> occurs in \<open>l\<close> as a contiguous run".
\<close>

definition helmet_label :: "string \<Rightarrow> bool" where
  "helmet_label l = (sublist ''hat'' l \<or> sublist ''helmet'' l \<or> sublist ''hardhat'' l)"

definition person_and_hardhat :: "RawObject list" where
  "person_and_hardhat =
     [\<lparr>obj_label = ''person'', obj_score = 0.95,
       obj_box = \<lparr>xmin = 0, ymin = 0, xmax = 10, ymax = 20\<rparr>\<rparr>,
      \<lparr>obj_label = ''hardhat'', obj_score = 0.85,
       obj_box = \<lparr>xmin = 2, ymin = 0, xmax = 6, ymax = 4\<rparr>\<rparr>,
      \<lparr>obj_label = ''hat'', obj_score = 0.5,
       obj_box = \<lparr>xmin = 2, ymin = 0, xmax = 6, ymax = 4\<rparr>\<rparr>]"

text \<open>
  The store is consistent with the trigger for a detection \<open>d\<close> when the alerts that
  refer to \<open>d\<close> are exactly one critical \<open>helmet_violation\<close> alert if \<open>d\<close> is a
  violation, and none otherwise.
\<close>

definition alert_ok :: "store \<Rightarrow> helmet_detection_row \<Rightarrow> bool" where
  "alert_ok db d =
     (if violation d
      then (\<exists>a. alerts_of db (det_id d) = [a] \<and>
                 alert_type a = ''helmet_violation'' \<and> severity a = ''critical'')
      else alerts_of db (det_id d) = [])"

text \<open>The invariant of the store: every alert refers to a detection, and \<open>alert_ok\<close> throughout.\<close>

definition store_inv :: "store \<Rightarrow> bool" where
  "store_inv db =
     ((\<forall>a \<in> set (safety_alerts db).
         \<exists>d \<in> set (helmet_detections db). detection_id a = Some (det_id d)) \<and>
      (\<forall>d \<in> set (helmet_detections db). alert_ok db d))"

definition sample_violation :: detection_insert where
  "sample_violation =
     \<lparr> ins_has_helmet = False, ins_confidence = 0.9, ins_detection_timestamp = ''t1'',
       ins_location = ''Mine Site - Camera 1'', ins_image_data = None, ins_bounding_box = [],
       ins_alert_sent = False \<rparr>"

definition sample_ops :: "store_op list" where
  "sample_ops =
     [Insert_detection ''d1'' ''a1'' ''t1'' sample_violation,
      Insert_detection ''d2'' ''a2'' ''t2'' (sample_violation\<lparr> ins_has_helmet := True \<rparr>),
      Update_alert ''t3'' Set_acknowledged ''a1'',
      Update_alert ''t4'' Set_email_sent ''a1'']"

definition sample_row :: helmet_detection_row where
  "sample_row =
     \<lparr> det_id = ''d1'', worker_id = None, has_helmet = False, det_confidence = 0.9,
       detection_timestamp = ''t1'', location = Some ''Mine Site - Camera 1'',
       image_data = None, bounding_box = [], alert_sent = False, det_created_at = ''t1'' \<rparr>"


text \<open>Which effects are invocations of the edge function, and which are requests to the e-mail service.\<close>

fun is_invoke :: "effect \<Rightarrow> bool" where
  "is_invoke (Functions_invoke f b) = True"
| "is_invoke e = False"

fun is_resend :: "effect \<Rightarrow> bool" where
  "is_resend (Resend_post recipients) = True"
| "is_resend e = False"

text \<open>The e-mail service failed: the request was rejected or the response is not \<open>ok\<close>.\<close>

definition transport_failed :: "fetch_outcome \<Rightarrow> bool" where
  "transport_failed out = (case out of Fetch_rejects \<Rightarrow> True | Fetch_response ok txt r \<Rightarrow> \<not> ok)"

definition sample_alert :: safety_alert_row where
  "sample_alert =
     \<lparr> alert_id = ''a1'', detection_id = Some ''d1'', alert_type = ''helmet_violation'',
       message = ''SAFETY ALERT'', severity = ''critical'', email_sent = False,
       acknowledged = False, created_at = ''t1'', updated_at = ''t1'' \<rparr>"

definition sample_store :: store where
  "sample_store = \<lparr> helmet_detections = [sample_row], safety_alerts = [sample_alert] \<rparr>"

definition acked_store :: store where
  "acked_store =
     \<lparr> helmet_detections = [sample_row], safety_alerts = [sample_alert\<lparr> acknowledged := True \<rparr>] \<rparr>"

definition working_env :: handler_env where
  "working_env =
     \<lparr> SUPABASE_SERVICE_ROLE_KEY = Some ''service-key'', RESEND_API_KEY = Some ''resend-key'',
       resend_fetch = Fetch_response True ''sent'' (Json_object (Some ''e1'')),
       update_error = None,
       handler_now = ''t5'' \<rparr>"

definition failing_env :: handler_env where
  "failing_env =
     working_env\<lparr> resend_fetch := Fetch_response False ''quota exceeded'' Json_invalid \<rparr>"

definition sample_request :: http_request where
  "sample_request = \<lparr> req_method = ''POST'', req_body = Some (sendEmailAlert_body sample_alert) \<rparr>"

definition sample_invoke_env :: invoke_env where
  "sample_invoke_env = \<lparr> function_reachable = True, function_env = working_env \<rparr>"

definition sample_panel :: RealtimeAlerts_state where
  "sample_panel = \<lparr> alerts = [], unreadCount = 0 \<rparr>"

definition sample_ack_env :: ack_env where
  "sample_ack_env = \<lparr> ack_error = None, ack_now = ''t9'' \<rparr>"

definition fallback_env :: frame_env where
  "fallback_env =
     \<lparr> refs_ready = True, detector_outcome = Inl ''detector failed'', frame_image = ''jpeg'',
       random_motion = 0.2, random_confidence = 0.99, clock = ''t1'',
       frame_db_call = \<lparr> db_reachable = True, new_detection_id = ''d1'', new_alert_id = ''a1'',
                         db_now = ''t1'' \<rparr> \<rparr>"


text \<open>
  An alert as the trigger inserts it and the subscription delivers it, and the same
  delivery handled twice: the second handling starts from the panel and the store the
  first one left.
\<close>

definition inserted_store :: store where
  "inserted_store = run_ops [Insert_detection ''d1'' ''a1'' ''t1'' sample_violation] empty_store"

definition inserted_alert :: safety_alert_row where
  "inserted_alert =
     \<lparr> alert_id = ''a1'', detection_id = Some ''d1'', alert_type = ''helmet_violation'',
       message =
         ''SAFETY ALERT: Worker detected without helmet at Mine Site - Camera 1 with 90% confidence'',
       severity = ''critical'', email_sent = False, acknowledged = False,
       created_at = ''t1'', updated_at = ''t1'' \<rparr>"

definition first_delivery :: "RealtimeAlerts_state \<times> store \<times> effect list" where
  "first_delivery = onAlertInserted sample_invoke_env inserted_alert sample_panel inserted_store"

definition second_delivery :: "RealtimeAlerts_state \<times> store \<times> effect list" where
  "second_delivery =
     onAlertInserted sample_invoke_env inserted_alert (fst first_delivery) (fst (snd first_delivery))"

section \<open>Properties of the verdict engine\<close>

lemma str_includes_sublist: "str_includes s p = sublist p s"
  by (induction s) (simp_all add: sublist_Cons_right)

lemma Math_max_Max: "Math_max c cs = Max (set (c # cs))"
  unfolding Math_max_def by (rule Max.set_eq_fold [symmetric])

lemma isHelmet_toBoundingBox: "isHelmet (toBoundingBox r) = helmet_label (obj_label r)"
  by (simp add: isHelmet_def toBoundingBox_def helmet_label_def str_includes_sublist)

lemma isPerson_toBoundingBox: "isPerson (toBoundingBox r) = (obj_label r = ''person'')"
  by (simp add: isPerson_def toBoundingBox_def)

lemma filter_helmets:
  "filter isHelmet (map toBoundingBox rs) =
     map toBoundingBox (filter (\<lambda>r. helmet_label (obj_label r)) rs)"
  by (simp add: filter_map o_def isHelmet_toBoundingBox)

lemma filter_persons:
  "filter isPerson (map toBoundingBox rs) =
     map toBoundingBox (filter (\<lambda>r. obj_label r = ''person'') rs)"
  by (simp add: filter_map o_def isPerson_toBoundingBox)

lemma helmet_scores:
  "map box_confidence (filter isHelmet (map toBoundingBox rs)) =
     map obj_score (filter (\<lambda>r. helmet_label (obj_label r)) rs)"
  by (simp add: filter_helmets o_def toBoundingBox_def)

lemma hasHelmet_computeResult:
  "hasHelmet (computeResult now rs) =
     ((\<exists>r \<in> set rs. obj_label r = ''person'') \<and> (\<exists>r \<in> set rs. helmet_label (obj_label r)))"
  by (simp add: computeResult_def Let_def filter_empty_conv
        isHelmet_toBoundingBox isPerson_toBoundingBox)

lemma confidence_computeResult:
  "confidence (computeResult now rs) =
     (if \<exists>r \<in> set rs. helmet_label (obj_label r)
      then Max (set (map obj_score (filter (\<lambda>r. helmet_label (obj_label r)) rs)))
      else if \<exists>r \<in> set rs. obj_label r = ''person'' then 0.3 else 0.1)"
proof (cases "filter (\<lambda>r. helmet_label (obj_label r)) rs")
  case Nil
  then have no: "\<not> (\<exists>r \<in> set rs. helmet_label (obj_label r))"
    by (simp add: filter_empty_conv)
  show ?thesis
    using no Nil
    by (simp add: computeResult_def Let_def helmet_scores filter_persons filter_empty_conv)
next
  case (Cons h hs)
  then have yes: "\<exists>r \<in> set rs. helmet_label (obj_label r)"
    by (metis filter_empty_conv list.distinct(1))
  show ?thesis
    using yes Cons by (simp add: computeResult_def Let_def helmet_scores Math_max_Max)
qed

text \<open>
  Claim C1. For every list of classifier objects, the verdict has \<open>hasHelmet\<close> exactly
  when some object is labelled \<open>person\<close> and some object's label contains \<open>hat\<close>,
  \<open>helmet\<close> or \<open>hardhat\<close>; its confidence is the greatest score among the
  helmet-labelled objects when there is one, else 0.3 when there is a person, else 0.1.
\<close>

theorem verdict_hasHelmet_and_confidence:
  "hasHelmet (computeResult now rs) =
     ((\<exists>r \<in> set rs. obj_label r = ''person'') \<and> (\<exists>r \<in> set rs. helmet_label (obj_label r)))
   \<and> confidence (computeResult now rs) =
     (if \<exists>r \<in> set rs. helmet_label (obj_label r)
      then Max (set (map obj_score (filter (\<lambda>r. helmet_label (obj_label r)) rs)))
      else if \<exists>r \<in> set rs. obj_label r = ''person'' then 0.3 else 0.1)"
  by (simp only: hasHelmet_computeResult confidence_computeResult simp_thms)

theorem verdict_hasHelmet_and_confidence_witness:
  "hasHelmet (computeResult ''t'' person_and_hardhat) = True \<and>
   confidence (computeResult ''t'' person_and_hardhat) = 0.85"
  using verdict_hasHelmet_and_confidence [of "''t''" person_and_hardhat]
  by (simp add: person_and_hardhat_def helmet_label_def sublist_code(3))

section \<open>Properties of the access state\<close>

text \<open>
  Claim C2. The access state starts denied, and on the verdicts (helmet, 0.9),
  (helmet, 0.9), (no helmet, 0.9) the first verdict shows exactly the granted toast, the
  second shows nothing and the third shows exactly the denied toast.
\<close>

theorem access_trace_grant_hold_deny:
  "initialAccessGranted = False \<and>
   map (\<lambda>(before, verdict, after, toasts). toasts)
     (accessTrace initialAccessGranted [(True, 0.9), (True, 0.9), (False, 0.9)])
   = [[AccessGranted_toast], [], [AccessDenied_toast]]"
  by (simp add: initialAccessGranted_def accessUpdate_def)

lemma accessUpdate_edges:
  "accessUpdate b h c = (a, ts) \<Longrightarrow>
     (ts \<noteq> [] \<longleftrightarrow> a \<noteq> b \<or> (\<not> b \<and> \<not> h \<and> c > 0.6)) \<and>
     (ts = [AccessGranted_toast] \<longleftrightarrow> \<not> b \<and> a) \<and>
     (ts = [AccessDenied_toast] \<longleftrightarrow> (b \<and> \<not> a) \<or> (\<not> b \<and> \<not> h \<and> c > 0.6)) \<and>
     (ts = [] \<or> ts = [AccessGranted_toast] \<or> ts = [AccessDenied_toast])"
  by (auto simp: accessUpdate_def split: if_splits)

lemma accessTrace_entry:
  "(b, (h, c), a, ts) \<in> set (accessTrace g vs) \<Longrightarrow> accessUpdate b h c = (a, ts)"
proof (induction vs arbitrary: g)
  case Nil
  then show ?case by simp
next
  case (Cons v vs)
  then show ?case
    by (cases v) (auto split: prod.splits)
qed

text \<open>
  Claim C3, as the spec states it: a verdict that leaves the access state unchanged shows
  no toast, a denied state receiving a no-helmet verdict of any confidence included.
  The code differs: from the initial, denied state a no-helmet verdict of confidence
  0.9 leaves the state denied and shows the denied toast.
\<close>

theorem denied_state_violation_notifies_again:
  "accessTrace initialAccessGranted [(False, 0.9)] =
     [(False, (False, 0.9), False, [AccessDenied_toast])]"
  by (simp add: initialAccessGranted_def accessUpdate_def)

text \<open>
  Claim C3, amended. For every sequence of verdicts and every verdict in it, with \<open>b\<close>
  the state before, \<open>a\<close> the state after and \<open>ts\<close> the toasts: a toast is shown exactly
  when the state changes or a denied state receives a no-helmet verdict of confidence
  above 0.6; the granted toast exactly on the edge from denied to granted; the denied
  toast exactly on the edge from granted to denied or on that repeated violation; and
  never more than one toast.
\<close>

theorem notification_on_edge_or_repeated_violation:
  "(b, (h, c), a, ts) \<in> set (accessTrace g vs) \<Longrightarrow>
     (ts \<noteq> [] \<longleftrightarrow> a \<noteq> b \<or> (\<not> b \<and> \<not> h \<and> c > 0.6)) \<and>
     (ts = [AccessGranted_toast] \<longleftrightarrow> \<not> b \<and> a) \<and>
     (ts = [AccessDenied_toast] \<longleftrightarrow> (b \<and> \<not> a) \<or> (\<not> b \<and> \<not> h \<and> c > 0.6)) \<and>
     (ts = [] \<or> ts = [AccessGranted_toast] \<or> ts = [AccessDenied_toast])"
  by (rule accessUpdate_edges) (rule accessTrace_entry)

theorem notification_on_edge_or_repeated_violation_witness:
  "(False, (False, 0.5), False, []) \<in> set (accessTrace False [(True, 0.9), (False, 0.9), (False, 0.5)])
   \<and> (([] :: toast list) \<noteq> [] \<longleftrightarrow> False \<noteq> False \<or> (\<not> False \<and> \<not> False \<and> (0.5 :: rat) > 0.6))"
  using notification_on_edge_or_repeated_violation
          [of False False "0.5" False "[]" False "[(True, 0.9), (False, 0.9), (False, 0.5)]"]
  by (simp add: accessUpdate_def)

section \<open>Properties of the store\<close>

lemma store_inv_empty: "store_inv empty_store"
  by (simp add: store_inv_def empty_store_def)

lemma alerts_of_update:
  assumes "\<And>row. detection_id (f row) = detection_id row"
  shows "alerts_of (update_safety_alerts now f key db) d =
           map (\<lambda>row. if alert_id row = key then update_updated_at_column now (f row) else row) (alerts_of db d)"
  using assms
  by (simp add: alerts_of_def update_safety_alerts_def filter_map o_def update_updated_at_column_def cong: filter_cong)

lemma set_clause_of_keeps:
  "detection_id (set_clause_of u row) = detection_id row"
  "alert_type (set_clause_of u row) = alert_type row"
  "severity (set_clause_of u row) = severity row"
  by (cases u; simp)+

lemma store_inv_update:
  assumes "store_inv db"
  shows "store_inv (update_safety_alerts now (set_clause_of u) key db)"
proof -
  let ?g = "\<lambda>row. if alert_id row = key then update_updated_at_column now (set_clause_of u row) else row"
  have keep: "detection_id (?g row) = detection_id row" "alert_type (?g row) = alert_type row"
     "severity (?g row) = severity row" for row
    by (simp_all add: update_updated_at_column_def set_clause_of_keeps)
  have dets: "helmet_detections (update_safety_alerts now (set_clause_of u) key db) = helmet_detections db"
    by (simp add: update_safety_alerts_def)
  have al: "safety_alerts (update_safety_alerts now (set_clause_of u) key db) = map ?g (safety_alerts db)"
    by (simp add: update_safety_alerts_def)
  have ao: "alerts_of (update_safety_alerts now (set_clause_of u) key db) d = map ?g (alerts_of db d)" for d
    by (rule alerts_of_update) (simp add: set_clause_of_keeps)
  have ref: "\<forall>a \<in> set (map ?g (safety_alerts db)). \<exists>d \<in> set (helmet_detections db). detection_id a = Some (det_id d)"
    using assms keep(1) unfolding store_inv_def by (metis (no_types, lifting) imageE list.set_map)
  have ok: "alert_ok (update_safety_alerts now (set_clause_of u) key db) d" if "d \<in> set (helmet_detections db)" for d
  proof -
    from assms that have "alert_ok db d" by (simp add: store_inv_def)
    then show ?thesis
      unfolding alert_ok_def ao using keep(2,3) by (auto split: if_splits)
  qed
  show ?thesis
    unfolding store_inv_def dets al using ref ok by blast
qed

lemma create_helmet_violation_alert_Inr:
  assumes "create_helmet_violation_alert aid now NEW db1 = Inr db'"
  shows "helmet_detections db' = helmet_detections db1 \<and>
           (if violation NEW
            then (\<exists>a. safety_alerts db' = safety_alerts db1 @ [a] \<and>
                    detection_id a = Some (det_id NEW) \<and>
                    alert_type a = ''helmet_violation'' \<and> severity a = ''critical'' \<and>
                    \<not> email_sent a \<and> \<not> acknowledged a)
            else safety_alerts db' = safety_alerts db1)"
proof (cases "violation NEW")
  case True
  with assms show ?thesis
    by (auto simp: create_helmet_violation_alert_def violation_def
             split: option.splits if_splits)
next
  case False
  with assms show ?thesis
    by (auto simp: create_helmet_violation_alert_def violation_def)
qed

lemma insert_helmet_detection_Inr:
  assumes "insert_helmet_detection new_id aid now v db = Inr db'"
  shows "\<exists>NEW. det_id NEW = new_id \<and> new_id \<notin> set (map det_id (helmet_detections db)) \<and>
           to_decimal_3_2 (ins_confidence v) = Inr (det_confidence NEW) \<and>
           has_helmet NEW = ins_has_helmet v \<and>
           helmet_detections db' = helmet_detections db @ [NEW] \<and>
           (if violation NEW
            then (\<exists>a. safety_alerts db' = safety_alerts db @ [a] \<and> detection_id a = Some new_id \<and>
                    alert_type a = ''helmet_violation'' \<and> severity a = ''critical'' \<and>
                    \<not> email_sent a \<and> \<not> acknowledged a)
            else safety_alerts db' = safety_alerts db)"
proof -
  from assms obtain c where c: "to_decimal_3_2 (ins_confidence v) = Inr c"
    by (auto simp: insert_helmet_detection_def split: sum.splits)
  define NEW where "NEW =
     \<lparr> det_id = new_id, worker_id = None, has_helmet = ins_has_helmet v, det_confidence = c,
       detection_timestamp = ins_detection_timestamp v, location = Some (ins_location v),
       image_data = ins_image_data v, bounding_box = ins_bounding_box v,
       alert_sent = ins_alert_sent v, det_created_at = now \<rparr>"
  from assms c have fresh: "new_id \<notin> set (map det_id (helmet_detections db))"
    by (auto simp: insert_helmet_detection_def split: if_splits)
  from assms c fresh have trig:
    "create_helmet_violation_alert aid now NEW
       (db\<lparr> helmet_detections := helmet_detections db @ [NEW] \<rparr>) = Inr db'"
    by (simp add: insert_helmet_detection_def Let_def NEW_def)
  have fields: "det_id NEW = new_id" "det_confidence NEW = c" "has_helmet NEW = ins_has_helmet v"
    by (simp_all add: NEW_def)
  from create_helmet_violation_alert_Inr [OF trig] fresh c fields
  show ?thesis
    by (intro exI [of _ NEW]) (auto split: if_splits)
qed

lemma store_inv_insert:
  assumes inv: "store_inv db"
    and ins: "insert_helmet_detection new_id aid now v db = Inr db'"
  shows "store_inv db'"
proof -
  from insert_helmet_detection_Inr [OF ins] obtain NEW where
    id: "det_id NEW = new_id" and fresh: "new_id \<notin> set (map det_id (helmet_detections db))"
    and dets: "helmet_detections db' = helmet_detections db @ [NEW]"
    and al: "if violation NEW
            then (\<exists>a. safety_alerts db' = safety_alerts db @ [a] \<and> detection_id a = Some new_id \<and>
                    alert_type a = ''helmet_violation'' \<and> severity a = ''critical'' \<and>
                    \<not> email_sent a \<and> \<not> acknowledged a)
            else safety_alerts db' = safety_alerts db"
    by blast
  have none: "alerts_of db new_id = []"
  proof -
    have "detection_id a \<noteq> Some new_id" if "a \<in> set (safety_alerts db)" for a
    proof -
      from inv that obtain d where "d \<in> set (helmet_detections db)" "detection_id a = Some (det_id d)"
        unfolding store_inv_def by blast
      with fresh show ?thesis by auto
    qed
    then show ?thesis by (simp add: alerts_of_def filter_empty_conv)
  qed
  have old: "alerts_of db' (det_id d) = alerts_of db (det_id d)" if "d \<in> set (helmet_detections db)" for d
  proof -
    from that fresh have "det_id d \<noteq> new_id" by auto
    with al show ?thesis by (auto simp: alerts_of_def split: if_splits)
  qed
  have new: "alert_ok db' NEW"
    using al none id by (auto simp: alert_ok_def alerts_of_def split: if_splits)
  have ok: "\<forall>d \<in> set (helmet_detections db'). alert_ok db' d"
  proof
    fix d assume "d \<in> set (helmet_detections db')"
    then consider "d \<in> set (helmet_detections db)" | "d = NEW" using dets by auto
    then show "alert_ok db' d"
    proof cases
      case 1
      with inv have "alert_ok db d" by (simp add: store_inv_def)
      then show ?thesis using old [OF 1] by (simp add: alert_ok_def)
    next
      case 2
      then show ?thesis using new by simp
    qed
  qed
  have ref: "\<forall>a \<in> set (safety_alerts db'). \<exists>d \<in> set (helmet_detections db'). detection_id a = Some (det_id d)"
  proof
    fix a assume a: "a \<in> set (safety_alerts db')"
    show "\<exists>d \<in> set (helmet_detections db'). detection_id a = Some (det_id d)"
    proof (cases "a \<in> set (safety_alerts db)")
      case True
      with inv obtain d where "d \<in> set (helmet_detections db)" "detection_id a = Some (det_id d)"
        unfolding store_inv_def by blast
      then show ?thesis using dets by auto
    next
      case False
      with a al have "detection_id a = Some new_id" by (auto split: if_splits)
      then show ?thesis using dets id by auto
    qed
  qed
  show ?thesis unfolding store_inv_def using ref ok by blast
qed

lemma store_inv_apply_op: "store_inv db \<Longrightarrow> store_inv (apply_op op db)"
proof (cases op)
  case (Insert_detection i j t v)
  assume "store_inv db"
  then show ?thesis
    using Insert_detection by (auto split: sum.splits dest: store_inv_insert)
next
  case (Update_alert t u k)
  assume "store_inv db"
  then show ?thesis using Update_alert by (simp add: store_inv_update)
qed

lemma store_inv_run_ops: "store_inv db \<Longrightarrow> store_inv (run_ops ops db)"
  unfolding run_ops_def by (induction ops arbitrary: db) (simp_all add: store_inv_apply_op)

text \<open>
  Claim C4. In every store reached from the empty one by the statements of the
  repository, each persisted detection has an alert referring to it if and only if it
  satisfies the violation predicate (no helmet and stored confidence above 0.6); then
  there is exactly one such alert, of type \<open>helmet_violation\<close> and severity \<open>critical\<close>.
\<close>

theorem one_alert_per_violating_detection:
  "d \<in> set (helmet_detections (run_ops ops empty_store)) \<Longrightarrow>
     (if violation d
      then (\<exists>a. alerts_of (run_ops ops empty_store) (det_id d) = [a] \<and>
                 alert_type a = ''helmet_violation'' \<and> severity a = ''critical'')
      else alerts_of (run_ops ops empty_store) (det_id d) = [])"
  using store_inv_run_ops [OF store_inv_empty, of ops]
  by (simp add: store_inv_def alert_ok_def)

theorem one_alert_per_violating_detection_witness:
  "sample_row \<in> set (helmet_detections (run_ops sample_ops empty_store)) \<and>
   violation sample_row \<and>
   (\<exists>a. alerts_of (run_ops sample_ops empty_store) (det_id sample_row) = [a] \<and>
        alert_type a = ''helmet_violation'' \<and> severity a = ''critical'')"
proof -
  have m: "sample_row \<in> set (helmet_detections (run_ops sample_ops empty_store))"
    by code_simp
  have v: "violation sample_row"
    by code_simp
  from one_alert_per_violating_detection [OF m] v m show ?thesis
    by simp
qed

section \<open>Properties of the alert panel and the edge function\<close>

lemma handler_try_no_invoke:
  "handler_try env req db = (r, db', effects) \<Longrightarrow> filter is_invoke effects = []"
  by (auto simp: handler_try_def Let_def split: option.splits fetch_outcome.splits response_json.splits if_splits)

lemma handler_no_invoke:
  "handler env req db = (resp, db', effects) \<Longrightarrow> filter is_invoke effects = []"
  by (auto simp: handler_def split: if_splits prod.splits sum.splits dest: handler_try_no_invoke)

lemma sendEmailAlert_one_invoke:
  "sendEmailAlert env alert db = (db', effects) \<Longrightarrow>
     filter is_invoke effects = [Functions_invoke ''send-safety-alert'' (sendEmailAlert_body alert)]"
  by (auto simp: sendEmailAlert_def Let_def split: if_splits prod.splits dest: handler_no_invoke)


lemma onAlertInserted_invokes:
  "onAlertInserted env newAlert st db = (st', db', effects) \<Longrightarrow>
     filter is_invoke effects =
        (if severity newAlert = ''critical'' \<and> \<not> email_sent newAlert
         then [Functions_invoke ''send-safety-alert'' (sendEmailAlert_body newAlert)] else [])"
  by (auto simp: onAlertInserted_def Let_def split: if_splits prod.splits
           dest: sendEmailAlert_one_invoke)

text \<open>
  Claim C5: an alert is e-mailed when it is critical and not yet e-mailed, and handling
  an alert that was already e-mailed sends no second e-mail. The guard of the callback
  reads \<open>email_sent\<close> on the delivered copy (\<open>onAlertInserted_invokes\<close>), and the copy is
  the row as inserted, where the flag is false; the flag the edge function sets lives
  in the store. So for the alert the trigger inserts, the first handling invokes the
  edge function, which sends the e-mail and sets the flag in the store, and a second
  handling of the same delivery invokes it and sends the e-mail again.
\<close>

theorem second_delivery_sends_second_email:
  "safety_alerts inserted_store = [inserted_alert] \<and>
   map email_sent (safety_alerts (fst (snd first_delivery))) = [True] \<and>
   length (filter is_invoke (snd (snd first_delivery))) = 1 \<and>
   length (filter is_resend (snd (snd first_delivery))) = 1 \<and>
   length (filter is_invoke (snd (snd second_delivery))) = 1 \<and>
   length (filter is_resend (snd (snd second_delivery))) = 1"
  by code_simp

lemma dom_body: "dom (sendEmailAlert_body a) = SafetyAlertRequest_fields"
  by (auto simp: sendEmailAlert_body_def SafetyAlertRequest_fields_def)

lemma parse_body: "parseRequest (sendEmailAlert_body a) =
     \<lparr> req_alertId = Some (alert_id a),
       req_workerEmail = Some ''secejenish23@gmail.com'',
       req_alertMessage = Some (message a),
       req_severity = Some (severity a),
       req_location = Some ''Mine Site'',
       req_timestamp = Some (created_at a) \<rparr>"
  by (simp add: parseRequest_def sendEmailAlert_body_def)


text \<open>
  Claim C8. Every body the panel passes to the edge function has exactly the fields
  \<open>alertId\<close>, \<open>workerEmail\<close>, \<open>alertMessage\<close>, \<open>severity\<close>, \<open>location\<close> and \<open>timestamp\<close>,
  the fields of \<open>SafetyAlertRequest\<close>, and the handler's destructuring finds each of them.
\<close>

theorem payload_fields_match_request:
  "onAlertInserted env newAlert st db = (st', db', effects) \<Longrightarrow>
   Functions_invoke f payload \<in> set effects \<Longrightarrow>
     f = ''send-safety-alert'' \<and> dom payload = SafetyAlertRequest_fields \<and>
     parseRequest payload =
       \<lparr> req_alertId = Some (alert_id newAlert),
         req_workerEmail = Some ''secejenish23@gmail.com'',
         req_alertMessage = Some (message newAlert),
         req_severity = Some (severity newAlert),
         req_location = Some ''Mine Site'',
         req_timestamp = Some (created_at newAlert) \<rparr>"
proof -
  assume run: "onAlertInserted env newAlert st db = (st', db', effects)"
    and mem: "Functions_invoke f payload \<in> set effects"
  from mem have "Functions_invoke f payload \<in> set (filter is_invoke effects)" by simp
  with onAlertInserted_invokes [OF run]
  have "f = ''send-safety-alert'' \<and> payload = sendEmailAlert_body newAlert"
    by (auto split: if_splits)
  then show ?thesis by (simp add: dom_body parse_body)
qed

theorem payload_fields_match_request_witness:
  "Functions_invoke ''send-safety-alert'' (sendEmailAlert_body sample_alert)
     \<in> set (snd (snd (onAlertInserted sample_invoke_env sample_alert sample_panel sample_store))) \<and>
   dom (sendEmailAlert_body sample_alert) = SafetyAlertRequest_fields \<and>
   req_alertId (parseRequest (sendEmailAlert_body sample_alert)) = Some ''a1''"
proof -
  let ?R = "onAlertInserted sample_invoke_env sample_alert sample_panel sample_store"
  have run: "?R = (fst ?R, fst (snd ?R), snd (snd ?R))" by simp
  have mem: "Functions_invoke ''send-safety-alert'' (sendEmailAlert_body sample_alert)
               \<in> set (snd (snd ?R))"
    by (simp add: onAlertInserted_def sendEmailAlert_def sample_alert_def sample_invoke_env_def
          Let_def split: prod.splits)
  from payload_fields_match_request [OF run mem] mem show ?thesis
    by (simp add: sample_alert_def)
qed

lemma handler_try_cases:
  assumes "handler_try env req db = (r, db', effects)"
  shows "length (filter is_resend effects) \<le> 1"
    and "db' \<noteq> db \<Longrightarrow> \<not> transport_failed (resend_fetch env) \<and> filter is_resend effects \<noteq> [] \<and>
           (\<exists>parsed alertId. req_body req = Some parsed \<and> parsed ''alertId'' = Some alertId \<and>
              db' = update_safety_alerts (handler_now env) (\<lambda>row. row\<lparr> email_sent := True \<rparr>) alertId db)"
    and "transport_failed (resend_fetch env) \<Longrightarrow> db' = db \<and> (\<exists>msg. r = Inl msg)"
  using assms
  by (auto simp: handler_try_def Let_def parseRequest_def transport_failed_def
           split: option.splits fetch_outcome.splits response_json.splits if_splits)


text \<open>
  Claim C6. In the handler of the edge function the store changes only when the e-mail
  service answered with success, and then by one update of the alert whose id the
  request names: \<open>email_sent\<close> becomes true (and the trigger stamps \<open>updated_at\<close>), every
  other row stays. When the e-mail service fails, the store is untouched, so the flag
  stays as it was, and the handler answers with status 500 and \<open>success: false\<close> rather
  than throwing. The e-mail service is called at most once: there is no retry.
\<close>

theorem email_flag_only_after_transport_success:
  assumes "handler env req db = (resp, db', effects)"
  shows "(db' \<noteq> db \<longrightarrow>
            \<not> transport_failed (resend_fetch env) \<and> filter is_resend effects \<noteq> [] \<and>
            (\<exists>parsed alertId. req_body req = Some parsed \<and> parsed ''alertId'' = Some alertId \<and>
               helmet_detections db' = helmet_detections db \<and>
               safety_alerts db' =
                 map (\<lambda>row. if alert_id row = alertId
                            then row\<lparr> email_sent := True, updated_at := handler_now env \<rparr> else row)
                     (safety_alerts db))) \<and>
         (transport_failed (resend_fetch env) \<and> req_method req \<noteq> ''OPTIONS'' \<longrightarrow>
            db' = db \<and> status resp = 500 \<and>
            (\<exists>msg. body resp = Some \<lparr> success = False, emailId = None, error_message = Some msg \<rparr>)) \<and>
         length (filter is_resend effects) \<le> 1"
proof (cases "req_method req = ''OPTIONS''")
  case True
  with assms show ?thesis by (simp add: handler_def)
next
  case False
  obtain r db1 effs where t: "handler_try env req db = (r, db1, effs)"
    by (cases "handler_try env req db") auto
  from assms False t have db1: "db1 = db'" 
    by (auto simp: handler_def split: sum.splits)
  have eff: "filter is_resend effects = filter is_resend effs"
    using assms False t by (auto simp: handler_def split: sum.splits)
  note c = handler_try_cases [OF t]
  have one: "length (filter is_resend effects) \<le> 1" using c(1) eff by simp
  have upd: "db' \<noteq> db \<longrightarrow>
            \<not> transport_failed (resend_fetch env) \<and> filter is_resend effects \<noteq> [] \<and>
            (\<exists>parsed alertId. req_body req = Some parsed \<and> parsed ''alertId'' = Some alertId \<and>
               helmet_detections db' = helmet_detections db \<and>
               safety_alerts db' =
                 map (\<lambda>row. if alert_id row = alertId
                            then row\<lparr> email_sent := True, updated_at := handler_now env \<rparr> else row)
                     (safety_alerts db))"
  proof
    assume "db' \<noteq> db"
    with c(2) db1 eff show "\<not> transport_failed (resend_fetch env) \<and> filter is_resend effects \<noteq> [] \<and>
            (\<exists>parsed alertId. req_body req = Some parsed \<and> parsed ''alertId'' = Some alertId \<and>
               helmet_detections db' = helmet_detections db \<and>
               safety_alerts db' =
                 map (\<lambda>row. if alert_id row = alertId
                            then row\<lparr> email_sent := True, updated_at := handler_now env \<rparr> else row)
                     (safety_alerts db))"
      by (auto simp: update_safety_alerts_def update_updated_at_column_def)
  qed
  have fail: "transport_failed (resend_fetch env) \<and> req_method req \<noteq> ''OPTIONS'' \<longrightarrow>
            db' = db \<and> status resp = 500 \<and>
            (\<exists>msg. body resp = Some \<lparr> success = False, emailId = None, error_message = Some msg \<rparr>)"
  proof
    assume "transport_failed (resend_fetch env) \<and> req_method req \<noteq> ''OPTIONS''"
    then have f: "transport_failed (resend_fetch env)" by simp
    from c(3) [OF f] obtain msg where "db1 = db" "r = Inl msg" by blast
    with assms False t show "db' = db \<and> status resp = 500 \<and>
            (\<exists>msg. body resp = Some \<lparr> success = False, emailId = None, error_message = Some msg \<rparr>)"
      by (auto simp: handler_def)
  qed
  from upd fail one show ?thesis by blast
qed

theorem email_flag_only_after_transport_success_witness:
  "transport_failed (resend_fetch failing_env) \<and> req_method sample_request \<noteq> ''OPTIONS'' \<and>
   fst (snd (handler failing_env sample_request sample_store)) = sample_store \<and>
   status (fst (handler failing_env sample_request sample_store)) = 500 \<and>
   fst (snd (handler working_env sample_request sample_store)) \<noteq> sample_store \<and>
   \<not> transport_failed (resend_fetch working_env) \<and>
   filter is_resend (snd (snd (handler working_env sample_request sample_store))) \<noteq> []"
proof -
  let ?F = "handler failing_env sample_request sample_store"
  let ?W = "handler working_env sample_request sample_store"
  have runF: "?F = (fst ?F, fst (snd ?F), snd (snd ?F))" by simp
  have runW: "?W = (fst ?W, fst (snd ?W), snd (snd ?W))" by simp
  have failed: "transport_failed (resend_fetch failing_env)"
    by code_simp
  have post: "req_method sample_request \<noteq> ''OPTIONS''"
    by (simp add: sample_request_def)
  have changed: "fst (snd ?W) \<noteq> sample_store"
    by code_simp
  from email_flag_only_after_transport_success [OF runF] failed post
  have f: "fst (snd ?F) = sample_store \<and> status (fst ?F) = 500" by blast
  from email_flag_only_after_transport_success [OF runW] changed
  have w: "\<not> transport_failed (resend_fetch working_env) \<and> filter is_resend (snd (snd ?W)) \<noteq> []"
    by blast
  from failed post f changed w show ?thesis by blast
qed

text \<open>
  Claim C7, as the spec states it: acknowledging an alert that is already acknowledged
  is a complete no-op, with no further bump of \<open>updated_at\<close>. The code differs: the
  update is issued whatever the row holds, and the trigger stamps \<open>updated_at\<close> on every
  update, so the already acknowledged alert stamped \<open>t1\<close> is stamped \<open>t9\<close> afterwards.
\<close>

theorem acknowledge_again_bumps_updated_at:
  "map acknowledged (safety_alerts acked_store) = [True] \<and>
   map updated_at (safety_alerts acked_store) = [''t1''] \<and>
   map updated_at (safety_alerts
     (fst (snd (acknowledgeAlert sample_ack_env ''a1'' sample_panel acked_store)))) = [''t9''] \<and>
   fst (snd (acknowledgeAlert sample_ack_env ''a1'' sample_panel acked_store)) \<noteq> acked_store"
  by code_simp

text \<open>
  Claim C7, amended. When the update reports no error, \<open>acknowledgeAlert\<close> changes the
  alert with the given id, and no other row, in two fields only: \<open>acknowledged\<close> becomes
  true and \<open>updated_at\<close> becomes the time of the update; \<open>email_sent\<close> and every other
  field stay. On an alert already acknowledged there is no error and the one change is
  \<open>updated_at\<close>, stamped again.
\<close>

theorem acknowledge_sets_flag_and_timestamp:
  assumes "ack_error env = None"
    and "acknowledgeAlert env alertId st db = (st', db', effects)"
  shows "helmet_detections db' = helmet_detections db \<and>
         safety_alerts db' =
           map (\<lambda>row. if alert_id row = alertId
                      then row\<lparr> acknowledged := True, updated_at := ack_now env \<rparr> else row)
               (safety_alerts db) \<and>
         (\<forall>row \<in> set (safety_alerts db). alert_id row = alertId \<and> acknowledged row \<longrightarrow>
            row\<lparr> updated_at := ack_now env \<rparr> \<in> set (safety_alerts db')) \<and>
         effects = [Toast AlertAcknowledged_toast]"
proof -
  let ?f = "\<lambda>row. if alert_id row = alertId
                  then row\<lparr> acknowledged := True, updated_at := ack_now env \<rparr> else row"
  from assms have dets: "helmet_detections db' = helmet_detections db"
    and rows: "safety_alerts db' = map ?f (safety_alerts db)"
    and eff: "effects = [Toast AlertAcknowledged_toast]"
    by (auto simp: acknowledgeAlert_def update_safety_alerts_def update_updated_at_column_def)
  have again: "row\<lparr> updated_at := ack_now env \<rparr> \<in> set (safety_alerts db')"
    if "row \<in> set (safety_alerts db)" and "alert_id row = alertId" and "acknowledged row" for row
  proof -
    from that(3) have "row\<lparr> acknowledged := True \<rparr> = row" by simp
    with that(2) have eq: "?f row = row\<lparr> updated_at := ack_now env \<rparr>" by simp
    from that(1) have "?f row \<in> ?f ` set (safety_alerts db)" by (rule imageI)
    then show ?thesis unfolding rows set_map eq .
  qed
  from dets rows eff again show ?thesis by blast
qed

theorem acknowledge_sets_flag_and_timestamp_witness:
  "ack_error sample_ack_env = None \<and>
   safety_alerts (fst (snd (acknowledgeAlert sample_ack_env ''a1'' sample_panel sample_store)))
     = [sample_alert\<lparr> acknowledged := True, updated_at := ''t9'' \<rparr>] \<and>
   snd (snd (acknowledgeAlert sample_ack_env ''a1'' sample_panel sample_store))
     = [Toast AlertAcknowledged_toast]"
proof -
  let ?R = "acknowledgeAlert sample_ack_env ''a1'' sample_panel sample_store"
  have run: "?R = (fst ?R, fst (snd ?R), snd (snd ?R))" by simp
  have ok: "ack_error sample_ack_env = None" by (simp add: sample_ack_env_def)
  from acknowledge_sets_flag_and_timestamp [OF ok run] ok show ?thesis
    by (simp add: sample_store_def sample_alert_def sample_ack_env_def)
qed

section \<open>Properties of the fallback on a classifier failure\<close>

lemma round_half_away_le:
  assumes "x < 50"
  shows "round_half_away x \<le> 50"
proof (cases "x \<ge> 0")
  case True
  have "x + 1/2 < of_int 51" using assms by simp
  then have "\<lfloor>x + 1/2\<rfloor> < 51" by (simp only: floor_less_iff)
  with True show ?thesis unfolding round_half_away_def by simp
next
  case False
  define k where "k = \<lfloor>- x + 1/2\<rfloor>"
  from False have "of_int 0 \<le> - x + 1/2" by simp
  then have "0 \<le> k" unfolding k_def by (simp only: le_floor_iff)
  moreover from False have "round_half_away x = - k"
    unfolding round_half_away_def k_def by (simp only: if_False)
  ultimately show ?thesis by simp
qed

lemma to_decimal_below:
  assumes "to_decimal_3_2 q = Inr c" and "q < 1/2"
  shows "c \<le> 1/2"
proof -
  from assms(1) have c: "c = of_int (round_half_away (q * 100)) / 100"
    by (simp add: to_decimal_3_2_def Let_def split: if_splits)
  from assms(2) have "q * 100 < 50" by simp
  then have "round_half_away (q * 100) \<le> 50" by (rule round_half_away_le)
  then have "(of_int (round_half_away (q * 100)) :: rat) \<le> of_int 50"
    by (simp only: of_int_le_iff)
  then show ?thesis unfolding c by simp
qed

lemma round_half_away_range:
  assumes "0 \<le> x" and "x < 100"
  shows "0 \<le> round_half_away x \<and> round_half_away x \<le> 100"
proof -
  have "x + 1/2 < of_int 101" using assms by simp
  then have up: "\<lfloor>x + 1/2\<rfloor> < 101" by (simp only: floor_less_iff)
  have "of_int 0 \<le> x + 1/2" using assms by simp
  then have lo: "0 \<le> \<lfloor>x + 1/2\<rfloor>" by (simp only: le_floor_iff)
  from assms(1) have "round_half_away x = \<lfloor>x + 1/2\<rfloor>"
    unfolding round_half_away_def by (simp only: if_True)
  with up lo show ?thesis by simp
qed

lemma to_decimal_unit:
  assumes "0 \<le> q" and "q < 1"
  shows "to_decimal_3_2 q = Inr (of_int (round_half_away (q * 100)) / 100)"
proof -
  from assms have "0 \<le> q * 100" "q * 100 < 100" by simp_all
  from round_half_away_range [OF this]
  have r: "0 \<le> round_half_away (q * 100)" "round_half_away (q * 100) \<le> 100" by simp_all
  then have "(0::rat) \<le> of_int (round_half_away (q * 100))"
    "(of_int (round_half_away (q * 100)) :: rat) \<le> of_int 100"
    by (simp_all only: of_int_le_iff of_int_0_le_iff)
  then have "\<bar>(of_int (round_half_away (q * 100)) :: rat) / 100\<bar> < 10" by simp
  then show ?thesis by (simp add: to_decimal_3_2_def Let_def)
qed

lemma insert_helmet_detection_succeeds:
  assumes "to_decimal_3_2 (ins_confidence v) = Inr c"
    and "new_id \<notin> set (map det_id (helmet_detections db))"
    and "ins_has_helmet v \<or> c \<le> 0.6"
  shows "\<exists>db'. insert_helmet_detection new_id aid now v db = Inr db'"
  using assms
  by (auto simp: insert_helmet_detection_def Let_def create_helmet_violation_alert_def)

lemma saveDetection_cases:
  assumes "saveDetection call result img db = (db', logged)"
  shows "(db' = db \<and> logged = [Console_error ''Error saving detection:'']) \<or>
         (logged = [Console_log ''Detection saved to database''] \<and> db_reachable call \<and>
          insert_helmet_detection (new_detection_id call) (new_alert_id call) (db_now call)
            \<lparr> ins_has_helmet = hasHelmet result, ins_confidence = confidence result,
              ins_detection_timestamp = timestamp result, ins_location = ''Mine Site - Camera 1'',
              ins_image_data = img, ins_bounding_box = boundingBoxes result,
              ins_alert_sent = False \<rparr> db = Inr db')"
  using assms by (auto simp: saveDetection_def split: if_splits sum.splits)

lemma analyzeFrame_fallback:
  assumes "refs_ready env" and "detector_outcome env = Inl err"
    and "analyzeFrame env st db = (st', db', effects)"
  shows "\<exists>mock logged.
           mock = \<lparr> hasHelmet = (random_motion env > 0.4),
                    confidence = (if random_motion env > 0.4 then 0.7 + random_confidence env * 0.2
                                  else 0.2 + random_confidence env * 0.3),
                    timestamp = clock env,
                    boundingBoxes =
                      (if random_motion env > 0.4 then
                         [\<lparr> box_x = 100, box_y = 50, box_width = 200, box_height = 250,
                            box_confidence = 0.7 + random_confidence env * 0.2,
                            box_label = ''helmet'' \<rparr>]
                       else []) \<rparr> \<and>
           st' = st\<lparr> detectionResult := Some mock \<rparr> \<and>
           saveDetection (frame_db_call env) mock None db = (db', logged) \<and>
           effects = Console_error ''Detection error:'' # logged"
  using assms by (auto simp: analyzeFrame_def Let_def split: prod.splits)


text \<open>
  Claim C10. When the classifier fails, whatever the random draws (each in \<open>[0, 1)\<close>): a
  mock verdict without helmet has its confidence in \<open>[0.2, 0.5)\<close>, below the threshold
  0.6; the detection stored, if any, does not satisfy the violation predicate; and the
  alerts of the store are what they were, so no alert is created.
\<close>

theorem fallback_never_creates_alert:
  assumes ready: "refs_ready env" and fail: "detector_outcome env = Inl err"
    and r: "0 \<le> random_confidence env" "random_confidence env < 1"
    and run: "analyzeFrame env st db = (st', db', effects)"
  shows "\<exists>mock. detectionResult st' = Some mock \<and>
           (\<not> hasHelmet mock \<longrightarrow> 0.2 \<le> confidence mock \<and> confidence mock < 0.5) \<and>
           (helmet_detections db' = helmet_detections db \<or>
            (\<exists>row. helmet_detections db' = helmet_detections db @ [row] \<and>
                   has_helmet row = hasHelmet mock \<and>
                   to_decimal_3_2 (confidence mock) = Inr (det_confidence row) \<and>
                   \<not> violation row)) \<and>
           safety_alerts db' = safety_alerts db"
proof -
  from analyzeFrame_fallback [OF ready fail run] obtain mock logged where
    mock: "mock = \<lparr> hasHelmet = (random_motion env > 0.4),
                    confidence = (if random_motion env > 0.4 then 0.7 + random_confidence env * 0.2
                                  else 0.2 + random_confidence env * 0.3),
                    timestamp = clock env,
                    boundingBoxes =
                      (if random_motion env > 0.4 then
                         [\<lparr> box_x = 100, box_y = 50, box_width = 200, box_height = 250,
                            box_confidence = 0.7 + random_confidence env * 0.2,
                            box_label = ''helmet'' \<rparr>]
                       else []) \<rparr>"
    and st': "st' = st\<lparr> detectionResult := Some mock \<rparr>"
    and save: "saveDetection (frame_db_call env) mock None db = (db', logged)"
    by blast
  have range: "\<not> hasHelmet mock \<longrightarrow> 0.2 \<le> confidence mock \<and> confidence mock < 0.5"
    using r by (simp add: mock)
  have stored: "(helmet_detections db' = helmet_detections db \<and> safety_alerts db' = safety_alerts db) \<or>
            (\<exists>row. helmet_detections db' = helmet_detections db @ [row] \<and>
                   has_helmet row = hasHelmet mock \<and>
                   to_decimal_3_2 (confidence mock) = Inr (det_confidence row) \<and>
                   \<not> violation row \<and> safety_alerts db' = safety_alerts db)"
  proof -
    from saveDetection_cases [OF save] consider "db' = db"
      | "insert_helmet_detection (new_detection_id (frame_db_call env))
            (new_alert_id (frame_db_call env)) (db_now (frame_db_call env))
            \<lparr> ins_has_helmet = hasHelmet mock, ins_confidence = confidence mock,
              ins_detection_timestamp = timestamp mock, ins_location = ''Mine Site - Camera 1'',
              ins_image_data = None, ins_bounding_box = boundingBoxes mock,
              ins_alert_sent = False \<rparr> db = Inr db'"
      by blast
    then show ?thesis
    proof cases
      case 1
      then show ?thesis by simp
    next
      case 2
      from insert_helmet_detection_Inr [OF 2] obtain NEW where
        c: "to_decimal_3_2 (confidence mock) = Inr (det_confidence NEW)"
        and h: "has_helmet NEW = hasHelmet mock"
        and dets: "helmet_detections db' = helmet_detections db @ [NEW]"
        and al: "if violation NEW
            then (\<exists>a. safety_alerts db' = safety_alerts db @ [a] \<and>
                    detection_id a = Some (new_detection_id (frame_db_call env)) \<and>
                    alert_type a = ''helmet_violation'' \<and> severity a = ''critical'' \<and>
                    \<not> email_sent a \<and> \<not> acknowledged a)
            else safety_alerts db' = safety_alerts db"
        by auto
      have nv: "\<not> violation NEW"
      proof (cases "hasHelmet mock")
        case True
        with h show ?thesis by (simp add: violation_def)
      next
        case False
        with range have "confidence mock < 1/2" by simp
        from to_decimal_below [OF c this] show ?thesis by (simp add: violation_def)
      qed
      with al have "safety_alerts db' = safety_alerts db" by simp
      with c h dets nv show ?thesis by blast
    qed
  qed
  have res: "detectionResult st' = Some mock" by (simp add: st')
  from res range stored show ?thesis by blast
qed

theorem fallback_never_creates_alert_witness:
  "refs_ready fallback_env \<and> detector_outcome fallback_env = Inl ''detector failed'' \<and>
   0 \<le> random_confidence fallback_env \<and> random_confidence fallback_env < 1 \<and>
   safety_alerts (fst (snd (analyzeFrame fallback_env initial_HelmetDetector_state empty_store)))
     = safety_alerts empty_store"
proof -
  let ?R = "analyzeFrame fallback_env initial_HelmetDetector_state empty_store"
  have run: "?R = (fst ?R, fst (snd ?R), snd (snd ?R))" by simp
  have h: "refs_ready fallback_env" "detector_outcome fallback_env = Inl ''detector failed''"
    "0 \<le> random_confidence fallback_env" "random_confidence fallback_env < 1"
    by (simp_all add: fallback_env_def)
  from fallback_never_creates_alert [OF h run] h show ?thesis by blast
qed

text \<open>
  Claim C9. When the classifier fails, \<open>analyzeFrame\<close> ends normally: the error is
  logged, the state holds a mock verdict with all four fields (the helmet flag and the
  confidence from the random draws, the clock's timestamp, the list of boxes),
  the access state is untouched, and the mock verdict is handed to \<open>saveDetection\<close>; when
  the database is reached and the generated id is new, the store has the detection as
  its last row.
\<close>

theorem classifier_failure_gives_mock_verdict:
  assumes ready: "refs_ready env" and fail: "detector_outcome env = Inl err"
    and r: "0 \<le> random_confidence env" "random_confidence env < 1"
    and run: "analyzeFrame env st db = (st', db', effects)"
  shows "\<exists>mock logged.
           st' = st\<lparr> detectionResult := Some mock \<rparr> \<and>
           hasHelmet mock = (random_motion env > 0.4) \<and>
           confidence mock = (if random_motion env > 0.4 then 0.7 + random_confidence env * 0.2
                              else 0.2 + random_confidence env * 0.3) \<and>
           timestamp mock = clock env \<and>
           boundingBoxes mock =
             (if random_motion env > 0.4 then
                [\<lparr> box_x = 100, box_y = 50, box_width = 200, box_height = 250,
                   box_confidence = confidence mock, box_label = ''helmet'' \<rparr>]
              else []) \<and>
           saveDetection (frame_db_call env) mock None db = (db', logged) \<and>
           effects = Console_error ''Detection error:'' # logged \<and>
           (db_reachable (frame_db_call env) \<and>
            new_detection_id (frame_db_call env) \<notin> set (map det_id (helmet_detections db)) \<longrightarrow>
              (\<exists>row. helmet_detections db' = helmet_detections db @ [row] \<and>
                     det_id row = new_detection_id (frame_db_call env) \<and>
                     has_helmet row = hasHelmet mock \<and>
                     to_decimal_3_2 (confidence mock) = Inr (det_confidence row)))"
proof -
  from analyzeFrame_fallback [OF ready fail run] obtain mock logged where
    mock: "mock = \<lparr> hasHelmet = (random_motion env > 0.4),
                    confidence = (if random_motion env > 0.4 then 0.7 + random_confidence env * 0.2
                                  else 0.2 + random_confidence env * 0.3),
                    timestamp = clock env,
                    boundingBoxes =
                      (if random_motion env > 0.4 then
                         [\<lparr> box_x = 100, box_y = 50, box_width = 200, box_height = 250,
                            box_confidence = 0.7 + random_confidence env * 0.2,
                            box_label = ''helmet'' \<rparr>]
                       else []) \<rparr>"
    and st': "st' = st\<lparr> detectionResult := Some mock \<rparr>"
    and save: "saveDetection (frame_db_call env) mock None db = (db', logged)"
    and eff: "effects = Console_error ''Detection error:'' # logged"
    by blast
  have fields: "hasHelmet mock = (random_motion env > 0.4)"
    "confidence mock = (if random_motion env > 0.4 then 0.7 + random_confidence env * 0.2
                              else 0.2 + random_confidence env * 0.3)"
    "timestamp mock = clock env"
    "boundingBoxes mock =
             (if random_motion env > 0.4 then
                [\<lparr> box_x = 100, box_y = 50, box_width = 200, box_height = 250,
                   box_confidence = confidence mock, box_label = ''helmet'' \<rparr>]
              else [])"
    by (simp_all add: mock)
  have conf: "0 \<le> confidence mock" "confidence mock < 1"
    "\<not> hasHelmet mock \<longrightarrow> confidence mock < 1/2"
    using r by (simp_all add: mock)
  have persisted: "\<exists>row. helmet_detections db' = helmet_detections db @ [row] \<and>
                     det_id row = new_detection_id (frame_db_call env) \<and>
                     has_helmet row = hasHelmet mock \<and>
                     to_decimal_3_2 (confidence mock) = Inr (det_confidence row)"
    if reach: "db_reachable (frame_db_call env)"
      and fresh: "new_detection_id (frame_db_call env) \<notin> set (map det_id (helmet_detections db))"
  proof -
    let ?v = "\<lparr> ins_has_helmet = hasHelmet mock, ins_confidence = confidence mock,
              ins_detection_timestamp = timestamp mock, ins_location = ''Mine Site - Camera 1'',
              ins_image_data = None, ins_bounding_box = boundingBoxes mock,
              ins_alert_sent = False \<rparr>"
    let ?c = "of_int (round_half_away (confidence mock * 100)) / 100 :: rat"
    have dec: "to_decimal_3_2 (ins_confidence ?v) = Inr ?c"
      using to_decimal_unit [OF conf(1,2)] by simp
    have low: "ins_has_helmet ?v \<or> ?c \<le> 0.6"
    proof (cases "hasHelmet mock")
      case True
      then show ?thesis by simp
    next
      case False
      with conf(3) have "confidence mock < 1/2" by simp
      have "to_decimal_3_2 (confidence mock) = Inr ?c" using dec by simp
      from to_decimal_below [OF this \<open>confidence mock < 1/2\<close>] have "?c \<le> 1/2" .
      then show ?thesis by simp
    qed
    from insert_helmet_detection_succeeds [OF dec fresh low]
    obtain db1 where ins: "insert_helmet_detection (new_detection_id (frame_db_call env))
        (new_alert_id (frame_db_call env)) (db_now (frame_db_call env)) ?v db = Inr db1"
      by blast
    with save reach have "db' = db1" by (simp add: saveDetection_def)
    with insert_helmet_detection_Inr [OF ins] show ?thesis by auto
  qed
  from st' fields save eff persisted show ?thesis by blast
qed

theorem classifier_failure_gives_mock_verdict_witness:
  "refs_ready fallback_env \<and> detector_outcome fallback_env = Inl ''detector failed'' \<and>
   0 \<le> random_confidence fallback_env \<and> random_confidence fallback_env < 1 \<and>
   db_reachable (frame_db_call fallback_env) \<and>
   new_detection_id (frame_db_call fallback_env) \<notin> set (map det_id (helmet_detections empty_store)) \<and>
   map det_id (helmet_detections
     (fst (snd (analyzeFrame fallback_env initial_HelmetDetector_state empty_store)))) = [''d1'']"
proof -
  let ?R = "analyzeFrame fallback_env initial_HelmetDetector_state empty_store"
  have run: "?R = (fst ?R, fst (snd ?R), snd (snd ?R))" by simp
  have h: "refs_ready fallback_env" "detector_outcome fallback_env = Inl ''detector failed''"
    "0 \<le> random_confidence fallback_env" "random_confidence fallback_env < 1"
    by (simp_all add: fallback_env_def)
  have d: "db_reachable (frame_db_call fallback_env)"
    "new_detection_id (frame_db_call fallback_env) \<notin> set (map det_id (helmet_detections empty_store))"
    "new_detection_id (frame_db_call fallback_env) = ''d1''"
    by (simp_all add: fallback_env_def empty_store_def)
  from classifier_failure_gives_mock_verdict [OF h run] d
  have "map det_id (helmet_detections (fst (snd ?R))) = [''d1'']"
    by (auto simp: empty_store_def)
  with h d show ?thesis by blast
qed

end
